theory Spec2Isabelle
  imports Main
begin

section \<open>Strings and the character tables of the runtime\<close>

text \<open>
  A Python \<open>str\<close> is a sequence of Unicode code points, so a character is a natural
  number and a string a list of them. \<open>ustr\<close> reads an ASCII literal.
\<close>

type_synonym pychar = nat
type_synonym pystr = "pychar list"

definition ustr :: "string \<Rightarrow> pystr" where
  "ustr cs = map of_char cs"

text \<open>
  The patterns \<open>\d\<close>, \<open>\D\<close>, \<open>\s\<close> and \<open>\b\<close> and the method \<open>str.strip\<close> consult
  the interpreter's Unicode tables (decimal digit, whitespace, alphanumeric). The tables
  belong to the interpreter, not to the program, so the model takes them as a parameter.
  \<open>ascii_ucd\<close> is the table that knows the ASCII range only; \<open>ucd_agrees_ascii\<close> says
  that a table agrees with it below 128 and that no whitespace character is a decimal
  digit, which holds of every version of the Unicode database.
\<close>

record ucd =
  isdecimal :: "pychar \<Rightarrow> bool"
  isspace :: "pychar \<Rightarrow> bool"
  isalnum :: "pychar \<Rightarrow> bool"

definition in_range :: "nat \<Rightarrow> nat \<Rightarrow> pychar \<Rightarrow> bool" where
  "in_range lo hi c = (lo \<le> c \<and> c \<le> hi)"

definition ascii_digit :: "pychar \<Rightarrow> bool" where
  "ascii_digit c = in_range 48 57 c"

definition ascii_space :: "pychar \<Rightarrow> bool" where
  "ascii_space c = (in_range 9 13 c \<or> in_range 28 32 c)"

definition ascii_alnum :: "pychar \<Rightarrow> bool" where
  "ascii_alnum c = (in_range 48 57 c \<or> in_range 65 90 c \<or> in_range 97 122 c)"

definition ascii_ucd :: ucd where
  "ascii_ucd = \<lparr>isdecimal = ascii_digit, isspace = ascii_space, isalnum = ascii_alnum\<rparr>"

definition ucd_agrees_ascii :: "ucd \<Rightarrow> bool" where
  "ucd_agrees_ascii U =
     ((\<forall>c. c < 128 \<longrightarrow> isdecimal U c = ascii_digit c) \<and>
      (\<forall>c. c < 128 \<longrightarrow> isspace U c = ascii_space c) \<and>
      (\<forall>c. c < 128 \<longrightarrow> isalnum U c = ascii_alnum c) \<and>
      (\<forall>c. isspace U c \<longrightarrow> \<not> isdecimal U c))"

definition strip :: "ucd \<Rightarrow> pystr \<Rightarrow> pystr" where
  "strip U s = rev (dropWhile (isspace U) (rev (dropWhile (isspace U) s)))"

section \<open>Regular expressions with backtracking\<close>

text \<open>
  The fragment of the \<open>re\<close> module the two patterns use: a character class, the word
  boundary \<open>\b\<close>, sequence, the greedy operators \<open>?\<close>, \<open>*\<close> and \<open>{n}\<close>, and capturing
  groups. A matcher state is the character before the current position (for \<open>\b\<close>),
  the rest of the subject and the text of the groups captured so far. \<open>m\<close> lists the
  states in which a pattern can end, in the order in which the backtracking engine
  tries them; the engine's answer is the first.
\<close>

datatype re =
    Cls "pychar \<Rightarrow> bool"
  | Bnd
  | Seq re re
  | Opt re
  | Star re
  | Rep nat re
  | Grp nat re

type_synonym groups = "nat \<Rightarrow> pystr option"
type_synonym mstate = "pychar option \<times> pystr \<times> groups"

definition is_word :: "ucd \<Rightarrow> pychar \<Rightarrow> bool" where
  "is_word U c = (isalnum U c \<or> c = 95)"

fun word_before :: "ucd \<Rightarrow> pychar option \<Rightarrow> bool" where
  "word_before U None = False"
| "word_before U (Some c) = is_word U c"

fun word_after :: "ucd \<Rightarrow> pystr \<Rightarrow> bool" where
  "word_after U [] = False"
| "word_after U (c # cs) = is_word U c"

fun re_weight :: "re \<Rightarrow> nat" where
  "re_weight (Cls P) = 0"
| "re_weight Bnd = 0"
| "re_weight (Seq a b) = Suc (re_weight a + re_weight b)"
| "re_weight (Opt a) = Suc (re_weight a)"
| "re_weight (Star a) = Suc (re_weight a)"
| "re_weight (Rep n a) = Suc (n + re_weight a)"
| "re_weight (Grp k a) = Suc (re_weight a)"

function m :: "ucd \<Rightarrow> re \<Rightarrow> mstate \<Rightarrow> mstate list" where
  "m U (Cls P) (p, r, g) =
     (case r of [] \<Rightarrow> [] | x # xs \<Rightarrow> if P x then [(Some x, xs, g)] else [])"
| "m U Bnd (p, r, g) =
     (if word_before U p \<noteq> word_after U r then [(p, r, g)] else [])"
| "m U (Seq a b) st = concat (map (m U b) (m U a st))"
| "m U (Opt a) st = m U a st @ [st]"
| "m U (Star a) (p, r, g) =
     concat (map (m U (Star a))
       (filter (\<lambda>(p', r', g'). length r' < length r) (m U a (p, r, g)))) @ [(p, r, g)]"
| "m U (Rep 0 a) st = [st]"
| "m U (Rep (Suc n) a) st = concat (map (m U (Rep n a)) (m U a st))"
| "m U (Grp k a) (p, r, g) =
     map (\<lambda>(p', r', g'). (p', r', g'(k \<mapsto> take (length r - length r') r)))
       (m U a (p, r, g))"
  by pat_completeness auto
termination
  by (relation "measures [\<lambda>(U, r, st). re_weight r, \<lambda>(U, r, p, s, g). length s]") auto

definition Plus :: "re \<Rightarrow> re" where
  "Plus a = Seq a (Star a)"

definition Chr :: "pychar \<Rightarrow> re" where
  "Chr c = Cls (\<lambda>x. x = c)"

fun first :: "'a list \<Rightarrow> 'a option" where
  "first [] = None"
| "first (x # xs) = Some x"

definition re_match :: "ucd \<Rightarrow> re \<Rightarrow> pystr \<Rightarrow> mstate option" where
  "re_match U r s = first (m U r (None, s, Map.empty))"

fun search_from :: "ucd \<Rightarrow> re \<Rightarrow> pychar option \<Rightarrow> pystr \<Rightarrow> mstate option" where
  "search_from U r p [] = first (m U r (p, [], Map.empty))"
| "search_from U r p (c # cs) =
     (case m U r (p, c # cs, Map.empty) of
        x # _ \<Rightarrow> Some x
      | [] \<Rightarrow> search_from U r (Some c) cs)"

definition re_search :: "ucd \<Rightarrow> re \<Rightarrow> pystr \<Rightarrow> mstate option" where
  "re_search U r s = search_from U r None s"

subsection \<open>The two patterns of the program\<close>

definition email_local :: "pychar \<Rightarrow> bool" where
  "email_local c = (in_range 65 90 c \<or> in_range 97 122 c \<or> in_range 48 57 c \<or>
                    c = 46 \<or> c = 95 \<or> c = 37 \<or> c = 43 \<or> c = 45)"

definition email_domain :: "pychar \<Rightarrow> bool" where
  "email_domain c = (in_range 65 90 c \<or> in_range 97 122 c \<or> in_range 48 57 c \<or>
                     c = 46 \<or> c = 45)"

definition email_tld :: "pychar \<Rightarrow> bool" where
  "email_tld c = (in_range 65 90 c \<or> c = 124 \<or> in_range 97 122 c)"

definition RE_EMAIL :: re where
  "RE_EMAIL =
     Seq Bnd (Seq (Plus (Cls email_local)) (Seq (Chr 64) (Seq (Plus (Cls email_domain))
       (Seq (Chr 46) (Seq (Seq (Rep 2 (Cls email_tld)) (Star (Cls email_tld))) Bnd)))))"

definition phone_lead :: "pychar \<Rightarrow> bool" where
  "phone_lead c = (c = 55 \<or> c = 56)"

definition phone_sep :: "ucd \<Rightarrow> pychar \<Rightarrow> bool" where
  "phone_sep U c = (isspace U c \<or> c = 40 \<or> c = 41 \<or> c = 45)"

definition phone_ext_mark :: "ucd \<Rightarrow> pychar \<Rightarrow> bool" where
  "phone_ext_mark U c =
     (c = 40 \<or> c = 1076 \<or> c = 1086 \<or> c = 1073 \<or> c = 1072 \<or> c = 1074 \<or> c = 1095 \<or>
      c = 1085 \<or> c = 1099 \<or> c = 1081 \<or> c = 46 \<or> isspace U c)"

definition RE_PHONE :: "ucd \<Rightarrow> re" where
  "RE_PHONE U =
     Seq (Opt (Chr 43)) (Seq (Grp 1 (Cls phone_lead))
       (Seq (Grp 2 (Rep 10 (Grp 3 (Seq (Star (Cls (phone_sep U))) (Cls (isdecimal U))))))
         (Opt (Grp 4 (Seq (Star (Cls (phone_ext_mark U)))
                          (Grp 5 (Plus (Cls (isdecimal U)))))))))"

section \<open>Errors and values\<close>

datatype error = Exception string | TypeError

record Email =
  address :: pystr

record Phone =
  int_code :: int
  number :: pystr
  ext_code :: "pystr option"

text \<open>
  The attributes of a contact, the arguments of \<open>==\<close> and the keys of the lookup
  dictionary are dynamically typed: \<open>None\<close>, a \<open>str\<close>, a \<open>Phone\<close> or an \<open>Email\<close>.
\<close>

datatype pyval = VNone | VStr pystr | VPhone Phone | VEmail Email

subsection \<open>Email\<close>

definition Email_is_valid :: "ucd \<Rightarrow> pystr \<Rightarrow> bool" where
  "Email_is_valid U a = (re_match U RE_EMAIL (strip U a) \<noteq> None)"

definition Email_init :: "ucd \<Rightarrow> pystr \<Rightarrow> error + Email" where
  "Email_init U a =
     (let email_address = strip U a in
      if \<not> Email_is_valid U email_address then Inl (Exception ''Invalid e-mail address!'')
      else Inr \<lparr>address = email_address\<rparr>)"

definition Email_parse :: "ucd \<Rightarrow> pystr \<Rightarrow> error + Email option" where
  "Email_parse U a =
     (if Email_is_valid U a
      then (case Email_init U a of Inl e \<Rightarrow> Inl e | Inr x \<Rightarrow> Inr (Some x))
      else Inr None)"

definition Email_eq :: "Email \<Rightarrow> Email \<Rightarrow> bool" where
  "Email_eq a b = (address a = address b)"

definition Email_eq_str :: "Email \<Rightarrow> pystr \<Rightarrow> bool" where
  "Email_eq_str a s = (address a = s)"

subsection \<open>Phone\<close>

definition Phone_init :: "ucd \<Rightarrow> int \<Rightarrow> pystr \<Rightarrow> pystr option \<Rightarrow> Phone" where
  "Phone_init U ic num ext =
     \<lparr>int_code = ic, number = filter (isdecimal U) num, ext_code = ext\<rparr>"

text \<open>
  \<open>parse_ru\<close>: \<open>match.groups()\<close> always has five entries, so \<open>ext_code\<close> is always
  group 5 (absent when the optional group did not take part). Group 2 is set by every
  match (lemma \<open>search_group2\<close> below), so its \<open>None\<close> branch is never taken.
\<close>

definition parse_ru :: "ucd \<Rightarrow> pystr \<Rightarrow> Phone option" where
  "parse_ru U s =
     (case re_search U (RE_PHONE U) s of
        None \<Rightarrow> None
      | Some (p, r, g) \<Rightarrow>
          (case g 2 of
             None \<Rightarrow> None
           | Some t \<Rightarrow> Some (Phone_init U 7 (filter (isdecimal U) t) (g 5))))"

definition Phone_eq :: "Phone \<Rightarrow> Phone \<Rightarrow> bool" where
  "Phone_eq a b =
     (int_code a = int_code b \<and> number a = number b \<and> ext_code a = ext_code b)"

definition Phone_eq_opt :: "Phone \<Rightarrow> Phone option \<Rightarrow> bool" where
  "Phone_eq_opt a b = (case b of None \<Rightarrow> False | Some q \<Rightarrow> Phone_eq a q)"

definition Phone_eq_str :: "ucd \<Rightarrow> Phone \<Rightarrow> pystr \<Rightarrow> bool" where
  "Phone_eq_str U a s = Phone_eq_opt a (parse_ru U s)"

subsection \<open>Truth value, equality and hash of a value\<close>

fun truthy :: "pyval \<Rightarrow> bool" where
  "truthy VNone = False"
| "truthy (VStr s) = (s \<noteq> [])"
| "truthy (VPhone p) = True"
| "truthy (VEmail e) = True"

text \<open>
  \<open>a == b\<close>: the left operand's \<open>__eq__\<close> answers, and where it declines
  (\<open>str\<close> and \<open>None\<close> against another type) the right operand's does.
\<close>

fun py_eq :: "ucd \<Rightarrow> pyval \<Rightarrow> pyval \<Rightarrow> bool" where
  "py_eq U VNone VNone = True"
| "py_eq U (VStr s) (VStr t) = (s = t)"
| "py_eq U (VEmail a) (VEmail b) = Email_eq a b"
| "py_eq U (VEmail a) (VStr s) = Email_eq_str a s"
| "py_eq U (VStr s) (VEmail a) = Email_eq_str a s"
| "py_eq U (VPhone a) (VPhone b) = Phone_eq a b"
| "py_eq U (VPhone a) (VStr s) = Phone_eq_str U a s"
| "py_eq U (VStr s) (VPhone a) = Phone_eq_str U a s"
| "py_eq U _ _ = False"

function str_of_nat :: "nat \<Rightarrow> pystr" where
  "str_of_nat n = (if n < 10 then [48 + n] else str_of_nat (n div 10) @ [48 + n mod 10])"
  by pat_completeness auto
termination
  by (relation "measure id") auto

definition str_of_int :: "int \<Rightarrow> pystr" where
  "str_of_int i = (if i < 0 then 45 # str_of_nat (nat (- i)) else str_of_nat (nat i))"

text \<open>
  The hash of a \<open>str\<close> is modelled by the string itself (an ideal hash: two strings
  hash alike only when they are equal). An \<open>Email\<close> hashes as its address, a \<open>Phone\<close>
  as the f-string of its three fields, where an absent extension prints as \<open>None\<close>.
\<close>

datatype hashv = HNone | HStr pystr

fun py_hash :: "pyval \<Rightarrow> hashv" where
  "py_hash VNone = HNone"
| "py_hash (VStr s) = HStr s"
| "py_hash (VEmail e) = HStr (address e)"
| "py_hash (VPhone p) =
     HStr (str_of_int (int_code p) @ number p @
           (case ext_code p of None \<Rightarrow> ustr ''None'' | Some e \<Rightarrow> e))"

fun py_add :: "pyval \<Rightarrow> pyval \<Rightarrow> error + pyval" where
  "py_add (VStr a) (VStr b) = Inr (VStr (a @ b))"
| "py_add _ _ = Inl TypeError"

section \<open>The dictionary\<close>

text \<open>
  A \<open>dict\<close> in insertion order. A stored key answers a lookup when the hashes agree and
  \<open>==\<close> holds; storing under a key that is already present keeps the stored key and
  replaces the value.
\<close>

type_synonym 'v dict = "(pyval \<times> 'v) list"

definition key_match :: "ucd \<Rightarrow> pyval \<Rightarrow> pyval \<Rightarrow> bool" where
  "key_match U stored k = (py_hash stored = py_hash k \<and> py_eq U stored k)"

fun dict_get :: "ucd \<Rightarrow> 'v dict \<Rightarrow> pyval \<Rightarrow> 'v option" where
  "dict_get U [] k = None"
| "dict_get U ((k', v') # d) k = (if key_match U k' k then Some v' else dict_get U d k)"

fun dict_set :: "ucd \<Rightarrow> 'v dict \<Rightarrow> pyval \<Rightarrow> 'v \<Rightarrow> 'v dict" where
  "dict_set U [] k v = [(k, v)]"
| "dict_set U ((k', v') # d) k v =
     (if key_match U k' k then (k', v) # d else (k', v') # dict_set U d k v)"

section \<open>Contacts, the phone book and its conflicts\<close>

record Contact =
  first_name :: pyval
  last_name :: pyval
  surname :: pyval
  org :: pyval
  position :: pyval
  phone :: pyval
  email :: pyval

text \<open>
  Contacts are mutable objects shared by the phone book's list, its dictionary and its
  conflicts: they live in a heap and are named by references. The model holds one phone
  book, so a conflict's back reference to it is left out.
\<close>

type_synonym ref = nat
type_synonym heap = "ref \<Rightarrow> Contact"

record PhonebookConflict =
  source :: ref
  dest :: ref
  resolved :: bool

record Phonebook =
  pb_list :: "ref list"
  pb_hash :: "ref dict"
  conflicts :: "PhonebookConflict list"

definition Phonebook_init :: Phonebook where
  "Phonebook_init = \<lparr>pb_list = [], pb_hash = [], conflicts = []\<rparr>"

definition PhonebookConflict_init :: "ref \<Rightarrow> ref \<Rightarrow> PhonebookConflict" where
  "PhonebookConflict_init s d = \<lparr>source = s, dest = d, resolved = False\<rparr>"

text \<open>What \<open>add\<close> returns: a \<open>bool\<close>, or the class object \<open>Contact\<close>.\<close>

datatype pyret = PyBool bool | PyClass string

definition py_or :: "'a option \<Rightarrow> 'a option \<Rightarrow> 'a option" where
  "py_or a b = (case a of Some x \<Rightarrow> Some x | None \<Rightarrow> b)"

definition add_conflict :: "Phonebook \<Rightarrow> ref \<Rightarrow> ref \<Rightarrow> Phonebook" where
  "add_conflict pb duplicate contact =
     pb\<lparr>conflicts := conflicts pb @ [PhonebookConflict_init duplicate contact]\<rparr>"

definition register :: "ucd \<Rightarrow> heap \<Rightarrow> Phonebook \<Rightarrow> ref \<Rightarrow> pyval \<Rightarrow> Phonebook" where
  "register U h pb contact name_key =
     (let c = h contact;
          h0 = pb_hash pb;
          h1 = (if truthy (email c) then dict_set U h0 (email c) contact else h0);
          h2 = (if truthy (phone c) then dict_set U h1 (phone c) contact else h1);
          h3 = dict_set U h2 name_key contact
      in pb\<lparr>pb_list := pb_list pb @ [contact], pb_hash := h3\<rparr>)"

definition add :: "ucd \<Rightarrow> heap \<Rightarrow> Phonebook \<Rightarrow> ref \<Rightarrow> error + (pyret \<times> Phonebook)" where
  "add U h pb contact =
     (let c = h contact in
      case py_or (dict_get U (pb_hash pb) (email c)) (dict_get U (pb_hash pb) (phone c)) of
        Some duplicate \<Rightarrow> Inr (PyBool False, add_conflict pb duplicate contact)
      | None \<Rightarrow>
          (case py_add (last_name c) (first_name c) of
             Inl e \<Rightarrow> Inl e
           | Inr name_key \<Rightarrow>
               (case dict_get U (pb_hash pb) name_key of
                  Some duplicate \<Rightarrow>
                    if \<not> truthy (surname (h duplicate)) \<or> \<not> truthy (surname c) \<or>
                       py_eq U (surname (h duplicate)) (surname c)
                    then Inr (PyBool False, add_conflict pb duplicate contact)
                    else Inr (PyClass ''Contact'', register U h pb contact name_key)
                | None \<Rightarrow> Inr (PyClass ''Contact'', register U h pb contact name_key))))"

subsection \<open>Merging a conflict\<close>

datatype attr = A_first_name | A_last_name | A_surname | A_org | A_position | A_phone | A_email

fun attr_name :: "attr \<Rightarrow> pystr" where
  "attr_name A_first_name = ustr ''first_name''"
| "attr_name A_last_name = ustr ''last_name''"
| "attr_name A_surname = ustr ''surname''"
| "attr_name A_org = ustr ''org''"
| "attr_name A_position = ustr ''position''"
| "attr_name A_phone = ustr ''phone''"
| "attr_name A_email = ustr ''email''"

fun getattr :: "Contact \<Rightarrow> attr \<Rightarrow> pyval" where
  "getattr c A_first_name = first_name c"
| "getattr c A_last_name = last_name c"
| "getattr c A_surname = surname c"
| "getattr c A_org = org c"
| "getattr c A_position = position c"
| "getattr c A_phone = phone c"
| "getattr c A_email = email c"

fun setattr :: "Contact \<Rightarrow> attr \<Rightarrow> pyval \<Rightarrow> Contact" where
  "setattr c A_first_name v = c\<lparr>first_name := v\<rparr>"
| "setattr c A_last_name v = c\<lparr>last_name := v\<rparr>"
| "setattr c A_surname v = c\<lparr>surname := v\<rparr>"
| "setattr c A_org v = c\<lparr>org := v\<rparr>"
| "setattr c A_position v = c\<lparr>position := v\<rparr>"
| "setattr c A_phone v = c\<lparr>phone := v\<rparr>"
| "setattr c A_email v = c\<lparr>email := v\<rparr>"

definition merge_keys :: "attr list" where
  "merge_keys = [A_first_name, A_last_name, A_surname, A_org, A_position, A_phone, A_email]"

definition merge_step ::
  "ucd \<Rightarrow> pystr list \<Rightarrow> PhonebookConflict \<Rightarrow> heap \<Rightarrow> attr \<Rightarrow> heap" where
  "merge_step U ignore c h key =
     (let new_value = getattr (h (dest c)) key in
      if attr_name key \<in> set ignore \<or> \<not> truthy new_value \<or>
         py_eq U new_value (getattr (h (source c)) key)
      then h
      else h(source c := setattr (h (source c)) key new_value))"

definition merge ::
  "ucd \<Rightarrow> pystr list \<Rightarrow> PhonebookConflict \<Rightarrow> heap \<Rightarrow> heap \<times> PhonebookConflict" where
  "merge U ignore c h = (foldl (merge_step U ignore c) h merge_keys, c\<lparr>resolved := True\<rparr>)"

section \<open>Example data\<close>

definition Contact_init ::
  "pyval \<Rightarrow> pyval \<Rightarrow> pyval \<Rightarrow> pyval \<Rightarrow> pyval \<Rightarrow> pyval \<Rightarrow> pyval \<Rightarrow> Contact" where
  "Contact_init fn ln sn og ps ph em =
     \<lparr>first_name = fn, last_name = ln, surname = sn, org = og, position = ps,
      phone = ph, email = em\<rparr>"

text \<open>Two contacts with different names and the same e-mail address.\<close>

definition ivanov :: Contact where
  "ivanov = Contact_init (VStr (ustr ''Ivan'')) (VStr (ustr ''Ivanov'')) VNone VNone VNone VNone
     (VEmail \<lparr>address = ustr ''a@x.com''\<rparr>)"

definition petrov :: Contact where
  "petrov = Contact_init (VStr (ustr ''Petr'')) (VStr (ustr ''Petrov'')) VNone VNone VNone VNone
     (VEmail \<lparr>address = ustr ''a@x.com''\<rparr>)"

definition heap_email :: heap where
  "heap_email = (\<lambda>_. ivanov)(1 := petrov)"

definition book_email :: Phonebook where
  "book_email =
     \<lparr>pb_list = [0],
      pb_hash = [(VEmail \<lparr>address = ustr ''a@x.com''\<rparr>, 0), (VStr (ustr ''IvanovIvan''), 0)],
      conflicts = []\<rparr>"

text \<open>Three contacts named alike: two with different middle names, one with none.\<close>

definition sidorov :: "pyval \<Rightarrow> Contact" where
  "sidorov sn = Contact_init (VStr (ustr ''Sidor'')) (VStr (ustr ''Sidorov'')) sn
     VNone VNone VNone VNone"

definition heap_names :: heap where
  "heap_names = (\<lambda>_. sidorov (VStr (ustr ''Ivanovich'')))
     (1 := sidorov (VStr (ustr ''Petrovich'')), 2 := sidorov VNone)"

definition book_names :: Phonebook where
  "book_names =
     \<lparr>pb_list = [0], pb_hash = [(VStr (ustr ''SidorovSidor''), 0)], conflicts = []\<rparr>"

text \<open>The same person twice, the second row with an organization and a position.\<close>

definition phone_999 :: Phone where
  "phone_999 = \<lparr>int_code = 7, number = ustr ''9991112233'', ext_code = None\<rparr>"

definition ivan_first :: Contact where
  "ivan_first = Contact_init (VStr (ustr ''Ivan'')) (VStr (ustr ''Ivanov'')) VNone VNone VNone
     (VPhone phone_999) (VEmail \<lparr>address = ustr ''ivan@x.com''\<rparr>)"

definition ivan_second :: Contact where
  "ivan_second = Contact_init (VStr (ustr ''Ivan'')) (VStr (ustr ''Ivanov'')) VNone
     (VStr (ustr ''Acme'')) (VStr (ustr ''Engineer'')) (VPhone phone_999) VNone"

definition heap_merge :: heap where
  "heap_merge = (\<lambda>_. ivan_first)(1 := ivan_second)"

definition conflict_merge :: PhonebookConflict where
  "conflict_merge = \<lparr>source = 0, dest = 1, resolved = False\<rparr>"

section \<open>Sequences of insertions\<close>

text \<open>
  A caller's loop over \<open>add\<close> (as in \<open>load_csv_file\<close>): the records are added in order,
  and an exception raised by one \<open>add\<close> ends the loop.
\<close>

fun add_all :: "ucd \<Rightarrow> heap \<Rightarrow> Phonebook \<Rightarrow> ref list \<Rightarrow> error + Phonebook" where
  "add_all U h pb [] = Inr pb"
| "add_all U h pb (c # cs) =
     (case add U h pb c of Inl e \<Rightarrow> Inl e | Inr (ret, pb') \<Rightarrow> add_all U h pb' cs)"

text \<open>
  \<open>named h n c\<close>: the record \<open>c\<close> has the name key \<open>n\<close>, the concatenation of its last
  and first name. \<open>latest_named\<close> picks the last record of a list that has it.
\<close>

definition named :: "heap \<Rightarrow> pyval \<Rightarrow> ref \<Rightarrow> bool" where
  "named h n c = (py_add (last_name (h c)) (first_name (h c)) = Inr n)"

definition latest_named :: "heap \<Rightarrow> pyval \<Rightarrow> ref list \<Rightarrow> ref option" where
  "latest_named h n cs = first (rev (filter (named h n) cs))"

text \<open>The name key of every accepted record leads to the latest record of that name.\<close>

definition name_inv :: "ucd \<Rightarrow> heap \<Rightarrow> Phonebook \<Rightarrow> bool" where
  "name_inv U h pb =
     (\<forall>n r. latest_named h n (pb_list pb) = Some r \<longrightarrow> dict_get U (pb_hash pb) n = Some r)"

text \<open>
  A record whose last and first name concatenate to the text of an e-mail address, and
  a record of another name that has this address.
\<close>

definition dotcom :: Contact where
  "dotcom = Contact_init (VStr (ustr ''com'')) (VStr (ustr ''a@x.'')) VNone VNone VNone VNone VNone"

definition heap_collide :: heap where
  "heap_collide = (\<lambda>_. dotcom)(1 := petrov)"

definition book_collide :: Phonebook where
  "book_collide = \<lparr>pb_list = [0], pb_hash = [(VStr (ustr ''a@x.com''), 0)], conflicts = []\<rparr>"

definition book_names2 :: Phonebook where
  "book_names2 =
     \<lparr>pb_list = [0, 1], pb_hash = [(VStr (ustr ''SidorovSidor''), 1)], conflicts = []\<rparr>"

section \<open>Properties of values\<close>

lemma py_eq_refl: "py_eq U v v"
  by (cases v) (simp_all add: Email_eq_def Phone_eq_def)

lemma py_eq_sym: "py_eq U a b = py_eq U b a"
  by (cases a; cases b) (auto simp: Email_eq_def Phone_eq_def)

lemma key_match_refl: "key_match U k k"
  by (simp add: key_match_def py_eq_refl)

lemma strip_strip: "strip U (strip U s) = strip U s"
proof -
  let ?P = "isspace U"
  let ?t = "dropWhile ?P s"
  let ?u = "rev (dropWhile ?P (rev ?t))"
  have hd_t: "?t = [] \<or> \<not> ?P (hd ?t)"
    by (metis hd_dropWhile)
  have u_pref: "\<exists>w. ?t = ?u @ w"
    by (metis rev_append rev_rev_ident takeWhile_dropWhile_id)
  have "?u = [] \<or> \<not> ?P (hd ?u)"
  proof (cases "?u = []")
    case True
    then show ?thesis by simp
  next
    case False
    from u_pref obtain w where w: "?t = ?u @ w" by blast
    from False have "hd (?u @ w) = hd ?u" by (rule hd_append2)
    with w have e: "hd ?t = hd ?u" by simp
    from w False have ne: "?t \<noteq> []" by (metis append_is_Nil_conv)
    from hd_t ne have "\<not> ?P (hd ?t)" by blast
    then have "\<not> ?P (hd ?u)" unfolding e .
    then show ?thesis by (rule disjI2)
  qed
  then have a: "dropWhile ?P ?u = ?u"
    by (simp add: dropWhile_eq_self_iff)
  have b: "dropWhile ?P (rev ?u) = rev ?u"
    by (simp add: dropWhile_idem)
  show ?thesis
    unfolding strip_def a b by simp
qed

section \<open>What add returns\<close>

text \<open>
  C1. The claim is that \<open>add\<close> returns the boolean \<open>True\<close> for an accepted record and
  \<open>False\<close> for a duplicate. The duplicate path does return \<open>False\<close>; the accepting
  path ends in \<open>return Contact\<close> and hands back the class object. So whenever \<open>add\<close>
  returns, it either returned \<open>False\<close>, leaving the accepted list alone and recording
  one conflict, or returned the class \<open>Contact\<close>, having appended the record: it never
  returns \<open>True\<close>.
\<close>

theorem add_result:
  assumes "add U h pb contact = Inr (ret, pb')"
  shows "ret \<noteq> PyBool True \<and>
         ((ret = PyBool False \<and> pb_list pb' = pb_list pb \<and>
           length (conflicts pb') = Suc (length (conflicts pb)))
          \<or> (ret = PyClass ''Contact'' \<and> pb_list pb' = pb_list pb @ [contact] \<and>
              conflicts pb' = conflicts pb))"
  using assms
  by (auto simp: add_def Let_def add_conflict_def register_def
           split: option.splits sum.splits if_splits)

theorem add_result_witness:
  "add ascii_ucd heap_email Phonebook_init 0 = Inr (PyClass ''Contact'', book_email) \<and>
   PyClass ''Contact'' \<noteq> PyBool True \<and>
   pb_list book_email = pb_list Phonebook_init @ [0]"
proof -
  have e: "add ascii_ucd heap_email Phonebook_init 0 = Inr (PyClass ''Contact'', book_email)"
    by code_simp
  from add_result [OF e] show ?thesis using e by simp
qed

section \<open>Duplicates by e-mail address or phone number\<close>

text \<open>
  C2. When the incoming record's e-mail address is present and the dictionary already
  maps it to a record, or its phone is present and already mapped, \<open>add\<close> returns
  \<open>False\<close> and appends exactly one conflict whose \<open>dest\<close> is the incoming record; the
  accepted list and the dictionary stay as they were. The source of the conflict is the
  record found under the e-mail address when there is one, and the record found under
  the phone otherwise.
\<close>

theorem add_channel_duplicate:
  assumes "(email (h contact) \<noteq> VNone \<and> dict_get U (pb_hash pb) (email (h contact)) = Some da)
         \<or> (phone (h contact) \<noteq> VNone \<and> dict_get U (pb_hash pb) (phone (h contact)) = Some db)"
  shows "\<exists>src. add U h pb contact =
            Inr (PyBool False,
                 pb\<lparr>conflicts := conflicts pb @
                       [\<lparr>source = src, dest = contact, resolved = False\<rparr>]\<rparr>)
          \<and> (case dict_get U (pb_hash pb) (email (h contact)) of
                Some d \<Rightarrow> src = d
              | None \<Rightarrow> dict_get U (pb_hash pb) (phone (h contact)) = Some src)"
  using assms
  by (auto simp: add_def Let_def add_conflict_def py_or_def PhonebookConflict_init_def
           split: option.splits)

theorem add_channel_duplicate_witness:
  "email (heap_email 1) \<noteq> VNone \<and>
   dict_get ascii_ucd (pb_hash book_email) (email (heap_email 1)) = Some 0 \<and>
   add ascii_ucd heap_email book_email 1 =
     Inr (PyBool False,
          book_email\<lparr>conflicts := [\<lparr>source = 0, dest = 1, resolved = False\<rparr>]\<rparr>)"
proof -
  have a: "email (heap_email 1) \<noteq> VNone"
    by code_simp
  have b: "dict_get ascii_ucd (pb_hash book_email) (email (heap_email 1)) = Some 0"
    by code_simp
  have "email (heap_email 1) \<noteq> VNone \<and>
        dict_get ascii_ucd (pb_hash book_email) (email (heap_email 1)) = Some 0"
    using a b by simp
  then have "(email (heap_email 1) \<noteq> VNone \<and>
        dict_get ascii_ucd (pb_hash book_email) (email (heap_email 1)) = Some 0)
     \<or> (phone (heap_email 1) \<noteq> VNone \<and>
        dict_get ascii_ucd (pb_hash book_email) (phone (heap_email 1)) = Some 0)"
    by (rule disjI1)
  from add_channel_duplicate
    [where h = heap_email and contact = 1 and U = ascii_ucd and pb = book_email, OF this]
  obtain src where
    s: "add ascii_ucd heap_email book_email 1 =
          Inr (PyBool False,
               book_email\<lparr>conflicts := conflicts book_email @
                  [\<lparr>source = src, dest = 1, resolved = False\<rparr>]\<rparr>)"
    and c: "(case dict_get ascii_ucd (pb_hash book_email) (email (heap_email 1)) of
                Some d \<Rightarrow> src = d
              | None \<Rightarrow> dict_get ascii_ucd (pb_hash book_email) (phone (heap_email 1)) = Some src)"
    by blast
  from c b have "src = 0" by simp
  moreover have "conflicts book_email = []" by (simp add: book_email_def)
  ultimately show ?thesis using s a b by simp
qed

section \<open>Duplicates by name\<close>

text \<open>
  C3. When neither the e-mail address nor the phone of the incoming record is found and
  the concatenation of its last and first name is already mapped to a record, \<open>add\<close>
  records a conflict and returns \<open>False\<close> exactly when one of the two middle names is
  absent (\<open>None\<close> or empty) or the two are equal; when both are present and differ the
  record is accepted: appended to the list, with no conflict recorded.
\<close>

theorem add_name_duplicate:
  assumes "dict_get U (pb_hash pb) (email (h contact)) = None"
      and "dict_get U (pb_hash pb) (phone (h contact)) = None"
      and "last_name (h contact) = VStr ln" and "first_name (h contact) = VStr fn"
      and "dict_get U (pb_hash pb) (VStr (ln @ fn)) = Some d"
  shows "add U h pb contact =
          (if \<not> truthy (surname (h d)) \<or> \<not> truthy (surname (h contact)) \<or>
              py_eq U (surname (h d)) (surname (h contact))
           then Inr (PyBool False,
                  pb\<lparr>conflicts := conflicts pb @
                        [\<lparr>source = d, dest = contact, resolved = False\<rparr>]\<rparr>)
           else Inr (PyClass ''Contact'', register U h pb contact (VStr (ln @ fn))))
       \<and> pb_list (register U h pb contact (VStr (ln @ fn))) = pb_list pb @ [contact]
       \<and> conflicts (register U h pb contact (VStr (ln @ fn))) = conflicts pb"
  using assms
  by (simp add: add_def Let_def add_conflict_def py_or_def PhonebookConflict_init_def
        register_def)

theorem add_name_duplicate_witness:
  "add ascii_ucd heap_names book_names 2 =
     Inr (PyBool False,
          book_names\<lparr>conflicts := [\<lparr>source = 0, dest = 2, resolved = False\<rparr>]\<rparr>) \<and>
   add ascii_ucd heap_names book_names 1 =
     Inr (PyClass ''Contact'',
          \<lparr>pb_list = [0, 1], pb_hash = [(VStr (ustr ''SidorovSidor''), 1)], conflicts = []\<rparr>)"
proof -
  have e: "dict_get ascii_ucd (pb_hash book_names) (email (heap_names 2)) = None"
          "dict_get ascii_ucd (pb_hash book_names) (email (heap_names 1)) = None"
    by code_simp+
  have p: "dict_get ascii_ucd (pb_hash book_names) (phone (heap_names 2)) = None"
          "dict_get ascii_ucd (pb_hash book_names) (phone (heap_names 1)) = None"
    by code_simp+
  have l: "last_name (heap_names 2) = VStr (ustr ''Sidorov'')"
          "last_name (heap_names 1) = VStr (ustr ''Sidorov'')"
    by code_simp+
  have f: "first_name (heap_names 2) = VStr (ustr ''Sidor'')"
          "first_name (heap_names 1) = VStr (ustr ''Sidor'')"
    by code_simp+
  have n: "dict_get ascii_ucd (pb_hash book_names) (VStr (ustr ''Sidorov'' @ ustr ''Sidor''))
             = Some 0"
    by code_simp
  have s: "\<not> truthy (surname (heap_names 2))"
          "truthy (surname (heap_names 0))" "truthy (surname (heap_names 1))"
          "\<not> py_eq ascii_ucd (surname (heap_names 0)) (surname (heap_names 1))"
    by code_simp+
  have r: "register ascii_ucd heap_names book_names 1 (VStr (ustr ''Sidorov'' @ ustr ''Sidor''))
           = \<lparr>pb_list = [0, 1], pb_hash = [(VStr (ustr ''SidorovSidor''), 1)], conflicts = []\<rparr>"
    by code_simp
  have c: "conflicts book_names = []"
    by (simp add: book_names_def)
  show ?thesis
    using add_name_duplicate [where h = heap_names and contact = 2, OF e(1) p(1) l(1) f(1) n]
          add_name_duplicate [where h = heap_names and contact = 1, OF e(2) p(2) l(2) f(2) n]
          s r c
    by simp
qed

section \<open>Lenient parsing and strict construction of an e-mail address\<close>

text \<open>
  C8. For an invalid e-mail string \<open>Email.parse\<close> returns \<open>None\<close> and raises nothing,
  while the constructor raises on the same string; for a valid string both succeed and
  give the address with the surrounding whitespace removed. A string is valid when
  \<open>Email.is_valid\<close> accepts it. (The constructor raises the built-in \<open>Exception\<close> with
  the message shown; the program defines no exception class of its own.)
\<close>

theorem Email_parse_lenient:
  "(\<not> Email_is_valid U a \<longrightarrow>
      Email_parse U a = Inr None \<and>
      Email_init U a = Inl (Exception ''Invalid e-mail address!''))
   \<and> (Email_is_valid U a \<longrightarrow>
      Email_parse U a = Inr (Some \<lparr>address = strip U a\<rparr>) \<and>
      Email_init U a = Inr \<lparr>address = strip U a\<rparr>)"
  by (simp add: Email_parse_def Email_init_def Email_is_valid_def strip_strip Let_def)

theorem Email_parse_lenient_witness:
  "Email_is_valid ascii_ucd (ustr '' a@x.com '') \<and>
   Email_parse ascii_ucd (ustr '' a@x.com '') = Inr (Some \<lparr>address = ustr ''a@x.com''\<rparr>) \<and>
   Email_init ascii_ucd (ustr '' a@x.com '') = Inr \<lparr>address = ustr ''a@x.com''\<rparr> \<and>
   \<not> Email_is_valid ascii_ucd (ustr ''a@x'') \<and>
   Email_parse ascii_ucd (ustr ''a@x'') = Inr None \<and>
   Email_init ascii_ucd (ustr ''a@x'') = Inl (Exception ''Invalid e-mail address!'')"
proof -
  have v: "Email_is_valid ascii_ucd (ustr '' a@x.com '')"
    by code_simp
  have s: "strip ascii_ucd (ustr '' a@x.com '') = ustr ''a@x.com''"
    by code_simp
  have n: "\<not> Email_is_valid ascii_ucd (ustr ''a@x'')"
    by code_simp
  show ?thesis
    using Email_parse_lenient [of ascii_ucd "ustr '' a@x.com ''"]
          Email_parse_lenient [of ascii_ucd "ustr ''a@x''"] v s n
    by simp
qed

section \<open>Equality of phone numbers\<close>

text \<open>
  C9. A \<open>Phone\<close> equals a raw string exactly when \<open>parse_ru\<close> succeeds on the string and
  yields a \<open>Phone\<close> with the same country code, digits and extension; when parsing
  fails the comparison is false. Equality between two \<open>Phone\<close> values is reflexive and
  symmetric.
\<close>

theorem Phone_eq_contract:
  "Phone_eq_str U p s =
     (\<exists>q. parse_ru U s = Some q \<and> int_code q = int_code p \<and> number q = number p \<and>
          ext_code q = ext_code p)
   \<and> (parse_ru U s = None \<longrightarrow> \<not> Phone_eq_str U p s)
   \<and> Phone_eq p p
   \<and> Phone_eq p q = Phone_eq q p"
  by (auto simp: Phone_eq_str_def Phone_eq_opt_def Phone_eq_def split: option.splits)

theorem Phone_eq_contract_witness:
  "parse_ru ascii_ucd (ustr ''+7 999 111 22 33'') = Some phone_999 \<and>
   Phone_eq_str ascii_ucd phone_999 (ustr ''+7 999 111 22 33'') \<and>
   parse_ru ascii_ucd (ustr ''999 111'') = None \<and>
   \<not> Phone_eq_str ascii_ucd phone_999 (ustr ''999 111'')"
proof -
  have a: "parse_ru ascii_ucd (ustr ''+7 999 111 22 33'') = Some phone_999"
    by code_simp
  have b: "parse_ru ascii_ucd (ustr ''999 111'') = None"
    by code_simp
  show ?thesis
    using Phone_eq_contract [of ascii_ucd phone_999 "ustr ''+7 999 111 22 33''" phone_999]
          Phone_eq_contract [of ascii_ucd phone_999 "ustr ''999 111''" phone_999] a b
    by simp
qed

section \<open>Merging a conflict into the existing record\<close>

lemma getattr_setattr: "getattr (setattr c k v) k' = (if k' = k then v else getattr c k')"
  by (cases k; cases k') simp_all

lemma merge_step_frame: "r \<noteq> source c \<Longrightarrow> merge_step U ig c h k r = h r"
  by (simp add: merge_step_def Let_def)

lemma merge_fold_frame: "r \<noteq> source c \<Longrightarrow> foldl (merge_step U ig c) h ks r = h r"
  by (induction ks arbitrary: h) (simp_all add: merge_step_frame)

lemma merge_fold_source:
  "getattr (foldl (merge_step U ig c) h ks (source c)) k =
     (if k \<in> set ks \<and> attr_name k \<notin> set ig \<and> truthy (getattr (h (dest c)) k) \<and>
         \<not> py_eq U (getattr (h (dest c)) k) (getattr (h (source c)) k)
      then getattr (h (dest c)) k
      else getattr (h (source c)) k)"
proof (cases "source c = dest c")
  case True
  have "\<And>h k. merge_step U ig c h k = h"
    using True by (simp add: merge_step_def Let_def py_eq_refl)
  then have "foldl (merge_step U ig c) h ks = h"
    by (induction ks) simp_all
  then show ?thesis
    using True by (simp add: py_eq_refl)
next
  case False
  show ?thesis
  proof (induction ks rule: rev_induct)
    case Nil
    then show ?case by simp
  next
    case (snoc x xs)
    define hm where "hm = foldl (merge_step U ig c) h xs"
    have d: "hm (dest c) = h (dest c)"
      using False by (simp add: hm_def merge_fold_frame)
    have ih: "getattr (hm (source c)) k =
       (if k \<in> set xs \<and> attr_name k \<notin> set ig \<and> truthy (getattr (h (dest c)) k) \<and>
           \<not> py_eq U (getattr (h (dest c)) k) (getattr (h (source c)) k)
        then getattr (h (dest c)) k
        else getattr (h (source c)) k)"
      using snoc by (simp add: hm_def)
    have "getattr (merge_step U ig c hm x (source c)) k =
       (if k \<in> set (xs @ [x]) \<and> attr_name k \<notin> set ig \<and> truthy (getattr (h (dest c)) k) \<and>
           \<not> py_eq U (getattr (h (dest c)) k) (getattr (h (source c)) k)
        then getattr (h (dest c)) k
        else getattr (h (source c)) k)"
      using ih d
      by (auto simp: merge_step_def Let_def getattr_setattr py_eq_refl)
    then show ?case
      by (simp add: hm_def)
  qed
qed

lemma attr_in_merge_keys: "k \<in> set merge_keys"
  by (cases k) (simp_all add: merge_keys_def)

text \<open>
  C4. \<open>merge\<close> visits the attributes in the order first name, last name, middle name,
  organization, position, phone, e-mail. Afterwards an attribute of the source holds
  the value of the incoming record exactly when its name is not in the ignore list, the
  incoming value is present and non-empty, and it differs from the source's old value;
  every other attribute of the source is as before, so an empty incoming value never
  replaces anything. No object other than the source changes, and the conflict is
  marked resolved. The method returns \<open>None\<close>: the new heap and the conflict are all
  there is to observe.
\<close>

theorem merge_contract:
  assumes "merge U ig c h = (h', c')"
  shows "h' = foldl (merge_step U ig c) h
               [A_first_name, A_last_name, A_surname, A_org, A_position, A_phone, A_email]
       \<and> (\<forall>k. getattr (h' (source c)) k =
               (if attr_name k \<notin> set ig \<and> truthy (getattr (h (dest c)) k) \<and>
                   \<not> py_eq U (getattr (h (dest c)) k) (getattr (h (source c)) k)
                then getattr (h (dest c)) k
                else getattr (h (source c)) k))
       \<and> (\<forall>k. \<not> truthy (getattr (h (dest c)) k) \<longrightarrow>
               getattr (h' (source c)) k = getattr (h (source c)) k)
       \<and> (\<forall>r. r \<noteq> source c \<longrightarrow> h' r = h r)
       \<and> c' = c\<lparr>resolved := True\<rparr>"
proof -
  from assms have h': "h' = foldl (merge_step U ig c) h merge_keys"
    and c': "c' = c\<lparr>resolved := True\<rparr>"
    by (simp_all add: merge_def)
  have 1: "h' = foldl (merge_step U ig c) h
               [A_first_name, A_last_name, A_surname, A_org, A_position, A_phone, A_email]"
    using h' by (simp only: merge_keys_def)
  have 2: "\<forall>k. getattr (h' (source c)) k =
               (if attr_name k \<notin> set ig \<and> truthy (getattr (h (dest c)) k) \<and>
                   \<not> py_eq U (getattr (h (dest c)) k) (getattr (h (source c)) k)
                then getattr (h (dest c)) k
                else getattr (h (source c)) k)"
    unfolding h' by (simp only: merge_fold_source attr_in_merge_keys simp_thms)
  have 3: "\<forall>k. \<not> truthy (getattr (h (dest c)) k) \<longrightarrow>
               getattr (h' (source c)) k = getattr (h (source c)) k"
    using 2 by simp
  have 4: "\<forall>r. r \<noteq> source c \<longrightarrow> h' r = h r"
    unfolding h' by (simp add: merge_fold_frame)
  from 1 2 3 4 c' show ?thesis by blast
qed

theorem merge_contract_witness:
  "fst (merge ascii_ucd [] conflict_merge heap_merge) 0 =
     Contact_init (VStr (ustr ''Ivan'')) (VStr (ustr ''Ivanov'')) VNone
       (VStr (ustr ''Acme'')) (VStr (ustr ''Engineer'')) (VPhone phone_999)
       (VEmail \<lparr>address = ustr ''ivan@x.com''\<rparr>) \<and>
   fst (merge ascii_ucd [] conflict_merge heap_merge) 1 = ivan_second \<and>
   snd (merge ascii_ucd [] conflict_merge heap_merge) =
     \<lparr>source = 0, dest = 1, resolved = True\<rparr> \<and>
   getattr (fst (merge ascii_ucd [] conflict_merge heap_merge) (source conflict_merge)) A_email =
     getattr (heap_merge (source conflict_merge)) A_email"
proof -
  have e: "merge ascii_ucd [] conflict_merge heap_merge =
      (fst (merge ascii_ucd [] conflict_merge heap_merge),
       snd (merge ascii_ucd [] conflict_merge heap_merge))"
    by simp
  have a: "fst (merge ascii_ucd [] conflict_merge heap_merge) 0 =
     Contact_init (VStr (ustr ''Ivan'')) (VStr (ustr ''Ivanov'')) VNone
       (VStr (ustr ''Acme'')) (VStr (ustr ''Engineer'')) (VPhone phone_999)
       (VEmail \<lparr>address = ustr ''ivan@x.com''\<rparr>)"
    by code_simp
  have b: "fst (merge ascii_ucd [] conflict_merge heap_merge) 1 = ivan_second"
    by code_simp
  have d: "snd (merge ascii_ucd [] conflict_merge heap_merge) =
     \<lparr>source = 0, dest = 1, resolved = True\<rparr>"
    by code_simp
  have t: "\<not> truthy (getattr (heap_merge (dest conflict_merge)) A_email)"
    by code_simp
  from merge_contract [OF e] t
  have "getattr (fst (merge ascii_ucd [] conflict_merge heap_merge) (source conflict_merge)) A_email =
     getattr (heap_merge (source conflict_merge)) A_email"
    by blast
  with a b d show ?thesis by blast
qed

section \<open>Registration of an accepted record\<close>

lemma dict_get_set_same: "dict_get U (dict_set U d k v) k = Some v"
  by (induction d) (auto simp: key_match_refl)

lemma dict_get_set_keep:
  "dict_get U d k = Some v \<Longrightarrow> dict_get U (dict_set U d k2 v) k = Some v"
  by (induction d) (auto split: if_splits)

lemma dict_get_set_absent:
  "dict_get U d k = Some r \<Longrightarrow> dict_get U d k2 = None \<Longrightarrow>
   dict_get U (dict_set U (d @ e) k2 v) k = Some r"
  by (induction d) (auto split: if_splits)

lemma dict_set_absent:
  "dict_get U d k = None \<Longrightarrow> \<exists>e. dict_set U d k v = d @ e"
  by (induction d) (auto split: if_splits)

lemma dict_get_set_other:
  "dict_get U d k = Some r \<Longrightarrow> \<forall>k'. \<not> (key_match U k' k \<and> key_match U k' k2) \<Longrightarrow>
   dict_get U (dict_set U d k2 v) k = Some r"
  by (induction d) (auto split: if_splits)

lemma key_match_two_strings:
  "key_match U k (VStr a) \<Longrightarrow> key_match U k (VStr b) \<Longrightarrow> a = b"
  by (simp add: key_match_def)

lemma py_add_Inr: "py_add a b = Inr n \<Longrightarrow> \<exists>x y. a = VStr x \<and> b = VStr y \<and> n = VStr (x @ y)"
  by (cases a; cases b) auto

lemma py_or_None: "py_or a b = None \<longleftrightarrow> a = None \<and> b = None"
  by (cases a) (simp_all add: py_or_def)

lemma latest_named_snoc:
  "latest_named h n (cs @ [c]) = (if named h n c then Some c else latest_named h n cs)"
  by (simp add: latest_named_def)

lemma latest_named_is_named: "latest_named h n cs = Some r \<Longrightarrow> named h n r"
proof -
  assume a: "latest_named h n cs = Some r"
  then have "rev (filter (named h n) cs) \<noteq> []"
    by (auto simp: latest_named_def)
  then obtain x xs where x: "rev (filter (named h n) cs) = x # xs"
    by (cases "rev (filter (named h n) cs)") auto
  with a have "x = r" by (simp add: latest_named_def)
  moreover have "x \<in> set (rev (filter (named h n) cs))" using x by simp
  ultimately show ?thesis by simp
qed

lemma register_fields:
  "pb_list (register U h pb c nk) = pb_list pb @ [c]"
  "conflicts (register U h pb c nk) = conflicts pb"
  by (simp_all add: register_def Let_def)

lemma register_name: "dict_get U (pb_hash (register U h pb c nk)) nk = Some c"
  by (simp add: register_def Let_def dict_get_set_same)

lemma register_email:
  "truthy (email (h c)) \<Longrightarrow> dict_get U (pb_hash (register U h pb c nk)) (email (h c)) = Some c"
  by (simp add: register_def Let_def dict_get_set_same dict_get_set_keep)

lemma register_phone:
  "truthy (phone (h c)) \<Longrightarrow> dict_get U (pb_hash (register U h pb c nk)) (phone (h c)) = Some c"
  by (simp add: register_def Let_def dict_get_set_same dict_get_set_keep)

lemma register_other_name:
  assumes g: "dict_get U (pb_hash pb) (VStr a) = Some r"
      and e: "dict_get U (pb_hash pb) (email (h c)) = None"
      and p: "dict_get U (pb_hash pb) (phone (h c)) = None"
      and ne: "a \<noteq> b"
  shows "dict_get U (pb_hash (register U h pb c (VStr b))) (VStr a) = Some r"
proof -
  define h1 where "h1 = (if truthy (email (h c)) then dict_set U (pb_hash pb) (email (h c)) c
                         else pb_hash pb)"
  define h2 where "h2 = (if truthy (phone (h c)) then dict_set U h1 (phone (h c)) c else h1)"
  have "\<exists>e1. h1 = pb_hash pb @ e1"
  proof (cases "truthy (email (h c))")
    case True
    then show ?thesis
      using dict_set_absent [OF e, of c] by (simp add: h1_def)
  next
    case False
    then have "h1 = pb_hash pb @ []" by (simp add: h1_def)
    then show ?thesis by (rule exI)
  qed
  then obtain e1 where e1: "h1 = pb_hash pb @ e1" by blast
  have g2: "dict_get U h2 (VStr a) = Some r"
  proof (cases "truthy (phone (h c))")
    case True
    then show ?thesis
      using dict_get_set_absent [OF g p, of e1 c] by (simp add: h2_def e1)
  next
    case False
    then show ?thesis
      using dict_get_set_absent [OF g e, of "[]" c] g by (auto simp: h2_def h1_def)
  qed
  have "\<forall>k'. \<not> (key_match U k' (VStr a) \<and> key_match U k' (VStr b))"
    using ne key_match_two_strings by blast
  from dict_get_set_other [OF g2 this]
  have s: "dict_get U (dict_set U h2 (VStr b) c) (VStr a) = Some r" .
  have reg: "pb_hash (register U h pb c (VStr b)) = dict_set U h2 (VStr b) c"
    by (simp add: register_def Let_def h2_def h1_def)
  show ?thesis
    unfolding reg by (rule s)
qed

lemma add_cases:
  assumes "add U h pb c = Inr (ret, pb')"
  shows "(ret = PyBool False \<and> pb_list pb' = pb_list pb \<and> pb_hash pb' = pb_hash pb)
       \<or> (ret = PyClass ''Contact'' \<and>
           dict_get U (pb_hash pb) (email (h c)) = None \<and>
           dict_get U (pb_hash pb) (phone (h c)) = None \<and>
           (\<exists>ln fn. last_name (h c) = VStr ln \<and> first_name (h c) = VStr fn \<and>
              pb' = register U h pb c (VStr (ln @ fn))))"
proof (cases "py_or (dict_get U (pb_hash pb) (email (h c))) (dict_get U (pb_hash pb) (phone (h c)))")
  case (Some d)
  with assms show ?thesis
    by (auto simp: add_def Let_def add_conflict_def)
next
  case None
  then have n: "dict_get U (pb_hash pb) (email (h c)) = None"
               "dict_get U (pb_hash pb) (phone (h c)) = None"
    by (simp_all add: py_or_None)
  from assms None obtain nk where nk: "py_add (last_name (h c)) (first_name (h c)) = Inr nk"
    by (auto simp: add_def Let_def split: sum.splits)
  then obtain ln fn where names: "last_name (h c) = VStr ln" "first_name (h c) = VStr fn"
      "nk = VStr (ln @ fn)"
    using py_add_Inr by blast
  from assms None nk names n show ?thesis
    by (auto simp: add_def Let_def add_conflict_def split: option.splits if_splits)
qed

lemma add_keeps_name_inv:
  assumes a: "add U h pb c = Inr (ret, pb')" and inv: "name_inv U h pb"
  shows "name_inv U h pb'"
  using add_cases [OF a]
proof
  assume "ret = PyBool False \<and> pb_list pb' = pb_list pb \<and> pb_hash pb' = pb_hash pb"
  with inv show ?thesis by (simp add: name_inv_def)
next
  assume "ret = PyClass ''Contact'' \<and>
           dict_get U (pb_hash pb) (email (h c)) = None \<and>
           dict_get U (pb_hash pb) (phone (h c)) = None \<and>
           (\<exists>ln fn. last_name (h c) = VStr ln \<and> first_name (h c) = VStr fn \<and>
              pb' = register U h pb c (VStr (ln @ fn)))"
  then obtain ln fn where e: "dict_get U (pb_hash pb) (email (h c)) = None"
    and p: "dict_get U (pb_hash pb) (phone (h c)) = None"
    and l: "last_name (h c) = VStr ln" and f: "first_name (h c) = VStr fn"
    and pb': "pb' = register U h pb c (VStr (ln @ fn))"
    by blast
  show ?thesis
    unfolding name_inv_def
  proof (intro allI impI)
    fix n r
    assume lt: "latest_named h n (pb_list pb') = Some r"
    show "dict_get U (pb_hash pb') n = Some r"
    proof (cases "named h n c")
      case True
      then have "n = VStr (ln @ fn)" by (simp add: named_def l f)
      moreover from lt True have "r = c"
        by (simp add: pb' register_fields latest_named_snoc)
      ultimately show ?thesis by (simp add: pb' register_name)
    next
      case False
      with lt have old: "latest_named h n (pb_list pb) = Some r"
        by (simp add: pb' register_fields latest_named_snoc)
      with inv have g: "dict_get U (pb_hash pb) n = Some r"
        by (simp add: name_inv_def)
      from latest_named_is_named [OF old] obtain a where n: "n = VStr a"
        using py_add_Inr by (fastforce simp: named_def)
      from False have "a \<noteq> ln @ fn" by (auto simp: named_def l f n)
      with g e p show ?thesis
        unfolding pb' n by (intro register_other_name) simp_all
    qed
  qed
qed

lemma add_all_name_inv:
  "name_inv U h pb \<Longrightarrow> add_all U h pb cs = Inr book \<Longrightarrow> name_inv U h book"
proof (induction cs arbitrary: pb)
  case Nil
  then show ?case by simp
next
  case (Cons c cs)
  from Cons.prems(2) obtain ret pb' where a: "add U h pb c = Inr (ret, pb')"
    and r: "add_all U h pb' cs = Inr book"
    by (auto split: sum.splits)
  from add_keeps_name_inv [OF a Cons.prems(1)] have "name_inv U h pb'" .
  from Cons.IH [OF this r] show ?case .
qed

lemma name_inv_init: "name_inv U h Phonebook_init"
  by (simp add: name_inv_def Phonebook_init_def latest_named_def)

text \<open>
  C6. An accepted record is appended to the list and afterwards found in the dictionary
  under its e-mail address if it has one, under its phone if it has one, and under the
  concatenation of its last and first name, whatever that key led to before. Hence,
  after any sequence of insertions into an empty phone book, a name key leads to the
  most recently accepted record of that name.
\<close>

theorem add_registers:
  "(add U h pb c = Inr (ret, pb') \<and> ret \<noteq> PyBool False \<longrightarrow>
      pb_list pb' = pb_list pb @ [c] \<and>
      (truthy (email (h c)) \<longrightarrow> dict_get U (pb_hash pb') (email (h c)) = Some c) \<and>
      (truthy (phone (h c)) \<longrightarrow> dict_get U (pb_hash pb') (phone (h c)) = Some c) \<and>
      (\<exists>n. py_add (last_name (h c)) (first_name (h c)) = Inr n \<and>
           dict_get U (pb_hash pb') n = Some c))
   \<and> (add_all U h Phonebook_init cs = Inr book \<and> latest_named h n (pb_list book) = Some r \<longrightarrow>
      dict_get U (pb_hash book) n = Some r)"
proof (intro conjI impI)
  assume "add_all U h Phonebook_init cs = Inr book \<and> latest_named h n (pb_list book) = Some r"
  then have "name_inv U h book" and "latest_named h n (pb_list book) = Some r"
    using add_all_name_inv [OF name_inv_init] by blast+
  then show "dict_get U (pb_hash book) n = Some r"
    by (simp add: name_inv_def)
next
  assume a: "add U h pb c = Inr (ret, pb') \<and> ret \<noteq> PyBool False"
  with add_cases [of U h pb c ret pb'] obtain ln fn where
    l: "last_name (h c) = VStr ln" and f: "first_name (h c) = VStr fn"
    and pb': "pb' = register U h pb c (VStr (ln @ fn))"
    by blast
  show "pb_list pb' = pb_list pb @ [c]"
    by (simp add: pb' register_fields)
  show "truthy (email (h c)) \<Longrightarrow> dict_get U (pb_hash pb') (email (h c)) = Some c"
    by (simp add: pb' register_email)
  show "truthy (phone (h c)) \<Longrightarrow> dict_get U (pb_hash pb') (phone (h c)) = Some c"
    by (simp add: pb' register_phone)
  show "\<exists>n. py_add (last_name (h c)) (first_name (h c)) = Inr n \<and>
           dict_get U (pb_hash pb') n = Some c"
    by (simp add: pb' l f register_name)
qed

theorem add_registers_witness:
  "add ascii_ucd heap_email Phonebook_init 0 = Inr (PyClass ''Contact'', book_email) \<and>
   truthy (email (heap_email 0)) \<and>
   dict_get ascii_ucd (pb_hash book_email) (email (heap_email 0)) = Some 0 \<and>
   add_all ascii_ucd heap_names Phonebook_init [0, 1] = Inr book_names2 \<and>
   latest_named heap_names (VStr (ustr ''SidorovSidor'')) (pb_list book_names2) = Some 1 \<and>
   dict_get ascii_ucd (pb_hash book_names2) (VStr (ustr ''SidorovSidor'')) = Some 1"
proof -
  have a: "add ascii_ucd heap_email Phonebook_init 0 = Inr (PyClass ''Contact'', book_email)"
    by code_simp
  have t: "truthy (email (heap_email 0))"
    by code_simp
  have s: "add_all ascii_ucd heap_names Phonebook_init [0, 1] = Inr book_names2"
    by code_simp
  have l: "latest_named heap_names (VStr (ustr ''SidorovSidor'')) (pb_list book_names2) = Some 1"
    by code_simp
  from add_registers
    [where U = ascii_ucd and h = heap_email and pb = Phonebook_init and c = 0 and
       ret = "PyClass ''Contact''" and pb' = book_email]
  have x: "dict_get ascii_ucd (pb_hash book_email) (email (heap_email 0)) = Some 0"
    using a t by simp
  from add_registers
    [where U = ascii_ucd and h = heap_names and cs = "[0, 1]" and book = book_names2 and
       n = "VStr (ustr ''SidorovSidor'')" and r = 1]
  have y: "dict_get ascii_ucd (pb_hash book_names2) (VStr (ustr ''SidorovSidor'')) = Some 1"
    using s l by simp
  from a t s l x y show ?thesis by simp
qed

section \<open>One dictionary for three kinds of key\<close>

text \<open>
  C10. E-mail addresses, phones and name keys are keys of one dictionary, and an
  \<open>Email\<close> has the hash of its address string and equals it. So a record can be
  reported as the duplicate of a record with which it shares neither e-mail address,
  phone nor name: here the first record has no e-mail address and no phone, its last
  name \<open>a@x.\<close> and first name \<open>com\<close> concatenate to \<open>a@x.com\<close>, and the second record,
  Petr Petrov, has the e-mail address \<open>a@x.com\<close>.
\<close>

theorem shared_key_space:
  "py_hash (VEmail e) = py_hash (VStr (address e)) \<and>
   py_eq U (VEmail e) (VStr (address e)) \<and>
   key_match U (VStr (address e)) (VEmail e) \<and>
   add U heap_collide Phonebook_init 0 = Inr (PyClass ''Contact'', book_collide) \<and>
   add U heap_collide book_collide 1 =
     Inr (PyBool False,
          book_collide\<lparr>conflicts := [\<lparr>source = 0, dest = 1, resolved = False\<rparr>]\<rparr>) \<and>
   email (heap_collide 0) = VNone \<and> phone (heap_collide 0) = VNone \<and>
   phone (heap_collide 1) = VNone \<and>
   last_name (heap_collide 0) \<noteq> last_name (heap_collide 1) \<and>
   first_name (heap_collide 0) \<noteq> first_name (heap_collide 1) \<and>
   py_add (last_name (heap_collide 0)) (first_name (heap_collide 0)) \<noteq>
     py_add (last_name (heap_collide 1)) (first_name (heap_collide 1))"
proof -
  have 1: "py_hash (VEmail e) = py_hash (VStr (address e))"
    by simp
  have 2: "py_eq U (VEmail e) (VStr (address e))"
    by (simp add: Email_eq_str_def)
  have 3: "key_match U (VStr (address e)) (VEmail e)"
    by (simp add: key_match_def Email_eq_str_def)
  have 4: "add U heap_collide Phonebook_init 0 = Inr (PyClass ''Contact'', book_collide)"
    by code_simp
  have 5: "add U heap_collide book_collide 1 =
     Inr (PyBool False,
          book_collide\<lparr>conflicts := [\<lparr>source = 0, dest = 1, resolved = False\<rparr>]\<rparr>)"
    by code_simp
  have 6: "email (heap_collide 0) = VNone" "phone (heap_collide 0) = VNone"
    "phone (heap_collide 1) = VNone"
    by code_simp+
  have 7: "last_name (heap_collide 0) \<noteq> last_name (heap_collide 1)"
    "first_name (heap_collide 0) \<noteq> first_name (heap_collide 1)"
    "py_add (last_name (heap_collide 0)) (first_name (heap_collide 0)) \<noteq>
     py_add (last_name (heap_collide 1)) (first_name (heap_collide 1))"
    by code_simp+
  from 1 2 3 4 5 6 7 show ?thesis by blast
qed

theorem shared_key_space_witness:
  "Email_init ascii_ucd (ustr ''a@x.com'') = Inr \<lparr>address = ustr ''a@x.com''\<rparr> \<and>
   email (heap_collide 1) = VEmail \<lparr>address = ustr ''a@x.com''\<rparr> \<and>
   key_match ascii_ucd (VStr (ustr ''a@x.com'')) (VEmail \<lparr>address = ustr ''a@x.com''\<rparr>) \<and>
   add ascii_ucd heap_collide book_collide 1 =
     Inr (PyBool False,
          book_collide\<lparr>conflicts := [\<lparr>source = 0, dest = 1, resolved = False\<rparr>]\<rparr>)"
proof -
  have a: "Email_init ascii_ucd (ustr ''a@x.com'') = Inr \<lparr>address = ustr ''a@x.com''\<rparr>"
    by code_simp
  have b: "email (heap_collide 1) = VEmail \<lparr>address = ustr ''a@x.com''\<rparr>"
    by code_simp
  from shared_key_space [of "\<lparr>address = ustr ''a@x.com''\<rparr>" ascii_ucd] a b
  show ?thesis by simp
qed

end
